theory Spec2Isabelle
  imports Main "HOL-Library.Sublist" "HOL-Library.Monad_Syntax"
begin

section \<open>Data model (src/mastra/lib/schemas.ts)\<close>

text \<open>
  A JavaScript string is a sequence of UTF-16 code units, and \<open>length\<close>, \<open>slice\<close> and a
  regular expression without the \<open>u\<close> flag all work on code units. A \<open>string\<close> below is
  that sequence, one \<open>char\<close> for one code unit. A JavaScript number that holds a list
  index or a count is an \<open>int\<close> or a \<open>nat\<close>; the one number read from text,
  \<open>pullNumber\<close>, has a type of its own.
\<close>

datatype jsnumber =
  SafeInteger nat  \<comment> \<open>an integer of at most \<open>2 ^ 53\<close>, which a double holds exactly\<close>
| BeyondSafe       \<comment> \<open>a double above \<open>2 ^ 53\<close>: rounded, or Infinity; its value is not modelled\<close>

record prIdentifier =
  owner :: string
  repo :: string
  pullNumber :: jsnumber

text \<open>\<open>fileSchema\<close>: \<open>patch\<close> is optional, absent for binary or very large files.\<close>

record changed_file =
  filename :: string
  status :: string
  additions :: int
  deletions :: int
  changes :: int
  patch :: "string option"

text \<open>\<open>fileReviewSchema\<close> and the enums of its issues.\<close>

datatype severity = Critical | Warning | Suggestion | Positive

datatype category = Bug | Security | Performance | Style | Quality | PositiveCat

record issue =
  severity :: severity
  category :: category
  line :: "string option"
  message :: string

record file_review =
  review_filename :: string
  issues :: "issue list"

datatype verdict = APPROVE | REQUEST_CHANGES | COMMENT

text \<open>\<open>reviewOutputSchema\<close>: the aggregate summary with the step-injected fields.\<close>

record review_output =
  summary :: string
  qualityScore :: int
  verdict :: verdict
  criticalIssues :: "string list"
  securityConcerns :: "string list"
  performanceNotes :: "string list"
  suggestions :: "string list"
  positiveNotes :: "string list"
  fileReviews :: "file_review list"
  skippedFiles :: "string list"

text \<open>
  What the external summarizer returns (6):
  \<open>summarizeFindings(dedupedFindings, prContext) -> {summary, qualityScore, verdict}\<close>.
\<close>

record summarizer_output =
  s_summary :: string
  s_qualityScore :: int
  s_verdict :: verdict


record files_output =
  files :: "changed_file list"
  totalFiles :: nat
  reviewableCount :: nat
  hasMore :: bool
  page :: int

record file_blob =
  blob_content :: string
  blob_encoding :: string
  blob_size :: int

record file_content_output =
  content :: "string option"
  encoding :: string
  size' :: int

section \<open>Configuration (src/mastra/lib/review-config, imported by the tools)\<close>

text \<open>
  The tools import \<open>SKIP_PATTERNS\<close>, \<open>MAX_PATCH_CHARS_PER_FILE\<close> and
  \<open>MAX_CONTENT_CHARS_PER_FILE\<close>; their values are configuration and are parameters here.
  A skip pattern is a regular expression used only through \<open>p.test(f.filename)\<close>, so it
  is the predicate on file names that \<open>test\<close> computes (a pattern without the \<open>g\<close> or
  \<open>y\<close> flag, whose \<open>test\<close> keeps no state between calls).
\<close>

record review_config =
  SKIP_PATTERNS :: "(string \<Rightarrow> bool) list"
  MAX_PATCH_CHARS_PER_FILE :: nat
  MAX_CONTENT_CHARS_PER_FILE :: nat


definition FILES_PER_PAGE :: int where
  "FILES_PER_PAGE = 30"

section \<open>Content budgeter\<close>

text \<open>
  Modelled from the spec: \<open>truncate\<close> is imported from src/mastra/lib/github, which is
  not among the sources. The spec's contract (4.2): \<open>truncate(text, maxChars)\<close> returns a
  text of at most \<open>maxChars\<close> characters, cut from the tail, pure and total, and a text
  that fits is returned unchanged.
\<close>

definition truncate :: "string \<Rightarrow> nat \<Rightarrow> string" where
  "truncate text maxChars = (if length text \<le> maxChars then text else take maxChars text)"

section \<open>parseGitHubPRUrl\<close>

text \<open>
  The tool matches the URL against
  \<^verbatim>\<open>/^https?:\/\/github\.com\/([^/]+)\/([^/]+)\/pull\/(\d+)\/?$/\<close>
  The matcher below follows the pattern from left to right: a literal is \<open>dropPrefix\<close>,
  \<^verbatim>\<open>([^/]+)\/\<close> is \<open>segment\<close>, \<^verbatim>\<open>(\d+)\/?$\<close> is \<open>digitsEnd\<close>. The optional
  \<open>s\<close> is tried first and given up when the rest does not match, as the backtracking of
  the regular expression does.
\<close>

datatype error = InvalidUrl string  \<comment> \<open>\<open>Error('Invalid GitHub PR URL: "<url>" ...')\<close>\<close>

fun dropPrefix :: "string \<Rightarrow> string \<Rightarrow> string option" where
  "dropPrefix [] s = Some s"
| "dropPrefix (p # ps) [] = None"
| "dropPrefix (p # ps) (c # cs) = (if p = c then dropPrefix ps cs else None)"

definition isDigit :: "char \<Rightarrow> bool" where
  "isDigit c = (c \<in> set ''0123456789'')"

definition notSlash :: "char \<Rightarrow> bool" where
  "notSlash c = (c \<noteq> CHR ''/'')"

definition segment :: "string \<Rightarrow> (string \<times> string) option" where
  "segment s =
     (let seg = takeWhile notSlash s in
      if seg = [] then None
      else (case dropWhile notSlash s of [] \<Rightarrow> None | c # rest \<Rightarrow> Some (seg, rest)))"

definition digitsEnd :: "string \<Rightarrow> string option" where
  "digitsEnd s =
     (let ds = takeWhile isDigit s; rest = dropWhile isDigit s in
      if ds \<noteq> [] \<and> (rest = [] \<or> rest = ''/'') then Some ds else None)"

definition afterScheme :: "string \<Rightarrow> (string \<times> string \<times> string) option" where
  "afterScheme s =
     do {
       r1 \<leftarrow> dropPrefix ''://github.com/'' s;
       (ow, r2) \<leftarrow> segment r1;
       (rp, r3) \<leftarrow> segment r2;
       r4 \<leftarrow> dropPrefix ''pull/'' r3;
       ds \<leftarrow> digitsEnd r4;
       Some (ow, rp, ds)
     }"

definition matchPRUrl :: "string \<Rightarrow> (string \<times> string \<times> string) option" where
  "matchPRUrl url =
     (case dropPrefix ''http'' url of
        None \<Rightarrow> None
      | Some r \<Rightarrow>
          (case dropPrefix ''s'' r \<bind> afterScheme of
             Some m \<Rightarrow> Some m
           | None \<Rightarrow> afterScheme r))"

text \<open>
  \<open>parseInt(match[3], 10)\<close> on a non-empty string of decimal digits: the number the
  digits write, as a double.
\<close>

definition digitValue :: "char \<Rightarrow> nat" where
  "digitValue c = of_char c - 48"

definition decimal :: "string \<Rightarrow> nat" where
  "decimal ds = foldl (\<lambda>n c. 10 * n + digitValue c) 0 ds"

definition parseInt10 :: "string \<Rightarrow> jsnumber" where
  "parseInt10 ds = (let n = decimal ds in if n \<le> 2 ^ 53 then SafeInteger n else BeyondSafe)"

definition parseGitHubPRUrl :: "string \<Rightarrow> error + prIdentifier" where
  "parseGitHubPRUrl url =
     (case matchPRUrl url of
        None \<Rightarrow> Inl (InvalidUrl url)
      | Some (ow, rp, ds) \<Rightarrow> Inr \<lparr>owner = ow, repo = rp, pullNumber = parseInt10 ds\<rparr>)"

text \<open>
  The form of a pull request URL in words, for the schemes of \<open>schemes\<close>: scheme,
  \<open>://github.com/\<close>, an owner and a repository name that are non-empty and hold no slash,
  \<open>/pull/\<close>, one or more decimal digits, and at most one trailing slash.
\<close>

definition isPRUrl :: "string list \<Rightarrow> string \<Rightarrow> string \<Rightarrow> string \<Rightarrow> string \<Rightarrow> bool" where
  "isPRUrl schemes url ow rp ds =
     (\<exists>scheme sl.
        url = scheme @ ''://github.com/'' @ ow @ ''/'' @ rp @ ''/pull/'' @ ds @ sl \<and>
        scheme \<in> set schemes \<and>
        ow \<noteq> [] \<and> list_all notSlash ow \<and>
        rp \<noteq> [] \<and> list_all notSlash rp \<and>
        ds \<noteq> [] \<and> list_all isDigit ds \<and>
        (sl = [] \<or> sl = ''/''))"

section \<open>getPullRequestDiff\<close>


section \<open>getPullRequestFiles\<close>

text \<open>
  \<open>Array.prototype.slice(start, end)\<close> on integers: a negative index counts from the
  end, both indices are clamped to the array, and an empty range gives the empty array.
\<close>

definition slice :: "'a list \<Rightarrow> int \<Rightarrow> int \<Rightarrow> 'a list" where
  "slice xs start fin =
     (let len = int (length xs);
          k = (if start < 0 then max (len + start) 0 else min start len);
          final = (if fin < 0 then max (len + fin) 0 else min fin len)
      in take (nat (final - k)) (drop (nat k) xs))"

text \<open>
  \<open>allFiles.filter((f) => !SKIP_PATTERNS.some((p) => p.test(f.filename)))\<close>, where
  \<open>allFiles\<close> is the list that \<open>fetchAllPRFiles\<close> resolved to.
\<close>

definition reviewableFiles :: "review_config \<Rightarrow> changed_file list \<Rightarrow> changed_file list" where
  "reviewableFiles cfg allFiles =
     filter (\<lambda>f. \<not> list_ex (\<lambda>p. p (filename f)) (SKIP_PATTERNS cfg)) allFiles"

text \<open>
  The callback of \<open>map\<close>: the spread of \<open>f\<close>, with \<open>patch\<close> overwritten when \<open>f.patch\<close> is
  truthy, that is present and not the empty string.
\<close>

definition budgetPatch :: "review_config \<Rightarrow> changed_file \<Rightarrow> changed_file" where
  "budgetPatch cfg f =
     (case patch f of
        None \<Rightarrow> f
      | Some p \<Rightarrow>
          if p \<noteq> [] then f\<lparr>patch := Some (truncate p (MAX_PATCH_CHARS_PER_FILE cfg))\<rparr> else f)"

definition getPullRequestFiles :: "review_config \<Rightarrow> changed_file list \<Rightarrow> int \<Rightarrow> files_output" where
  "getPullRequestFiles cfg allFiles pg =
     (let start = (pg - 1) * FILES_PER_PAGE;
          pageFiles =
            map (budgetPatch cfg)
              (slice (reviewableFiles cfg allFiles) start (start + FILES_PER_PAGE))
      in \<lparr>files = pageFiles,
          totalFiles = length allFiles,
          reviewableCount = length pageFiles,
          hasMore = (start + FILES_PER_PAGE < int (length (reviewableFiles cfg allFiles))),
          page = pg\<rparr>)"

text \<open>
  The skip rule in the words of the spec (4.1): the path matches a configured skip
  pattern, or the status is \<open>removed\<close> and the deletion count is below the threshold.
\<close>

definition specSkipped :: "review_config \<Rightarrow> int \<Rightarrow> changed_file \<Rightarrow> bool" where
  "specSkipped cfg threshold f =
     (list_ex (\<lambda>p. p (filename f)) (SKIP_PATTERNS cfg) \<or>
      (status f = ''removed'' \<and> deletions f < threshold))"

section \<open>getFileContent\<close>

text \<open>
  Modelled from the spec: \<open>fetchFileContent\<close> is imported from src/mastra/lib/github,
  which is not among the sources. The spec's contract (6):
  \<open>fetchFileContentAtRef(owner, repo, path, ref)\<close> returns \<open>{content, encoding, size}\<close>,
  or null, not an error, when the file or the ref does not exist. The remote repositories
  are a partial map from (owner, repo, path, ref) to the file there.
\<close>

type_synonym remote = "string \<times> string \<times> string \<times> string \<Rightarrow> file_blob option"

definition fetchFileContent :: "remote \<Rightarrow> string \<Rightarrow> string \<Rightarrow> string \<Rightarrow> string \<Rightarrow> file_blob option" where
  "fetchFileContent rem ow rp path ref = rem (ow, rp, path, ref)"

definition getFileContent ::
  "review_config \<Rightarrow> remote \<Rightarrow> string \<Rightarrow> string \<Rightarrow> string \<Rightarrow> string \<Rightarrow> file_content_output" where
  "getFileContent cfg rem ow rp path ref =
     (case fetchFileContent rem ow rp path ref of
        None \<Rightarrow> \<lparr>content = None, encoding = ''utf-8'', size' = 0\<rparr>
      | Some result \<Rightarrow>
          \<lparr>content = Some (truncate (blob_content result) (MAX_CONTENT_CHARS_PER_FILE cfg)),
           encoding = blob_encoding result,
           size' = blob_size result\<rparr>)"

section \<open>Finding aggregator\<close>

text \<open>
  Modelled from the spec: the aggregation step of the review workflow
  (src/mastra/workflows) is not among the sources; only its schemas are. The spec's
  contract (4.6): flatten the per-file findings keeping the file name; deduplicate
  findings that share file name, category and a near-identical message, keeping the
  instance of higher severity; bucket, where severity \<open>critical\<close> goes to
  \<open>criticalIssues\<close> whatever the category and category \<open>positive\<close> goes to
  \<open>positiveNotes\<close> whatever the severity; call the external summarizer once on the
  deduplicated findings; downgrade a verdict \<open>APPROVE\<close> to \<open>REQUEST_CHANGES\<close> when
  \<open>criticalIssues\<close> is not empty and note the override; attach the skipped files and the
  deduplicated per-file reviews. The test for near-identical messages is an
  implementation choice (9) and is the parameter \<open>sim\<close>; the summarizer is the parameter
  \<open>summarizeFindings\<close>.
\<close>

type_synonym finding = "string \<times> issue"

text \<open>Modelled from the spec: step 1, flatten the per-file findings, each with its file name.\<close>

definition flatten :: "file_review list \<Rightarrow> finding list" where
  "flatten allFileReviews =
     concat (map (\<lambda>r. map (\<lambda>i. (review_filename r, i)) (issues r)) allFileReviews)"

text \<open>Modelled from the spec: step 2, deduplicate; of two duplicates the one of higher severity
  is kept, in the place of the first.\<close>

fun rank :: "severity \<Rightarrow> nat" where
  "rank Critical = 3"
| "rank Warning = 2"
| "rank Suggestion = 1"
| "rank Positive = 0"

definition duplicate :: "(string \<Rightarrow> string \<Rightarrow> bool) \<Rightarrow> finding \<Rightarrow> finding \<Rightarrow> bool" where
  "duplicate sim f g =
     (fst f = fst g \<and> category (snd f) = category (snd g) \<and> sim (message (snd f)) (message (snd g)))"

fun mergeFinding :: "(string \<Rightarrow> string \<Rightarrow> bool) \<Rightarrow> finding \<Rightarrow> finding list \<Rightarrow> finding list" where
  "mergeFinding sim f [] = [f]"
| "mergeFinding sim f (g # gs) =
     (if duplicate sim f g
      then (if rank (severity (snd g)) < rank (severity (snd f)) then f else g) # gs
      else g # mergeFinding sim f gs)"

definition dedup :: "(string \<Rightarrow> string \<Rightarrow> bool) \<Rightarrow> finding list \<Rightarrow> finding list" where
  "dedup sim fs = foldl (\<lambda>kept f. mergeFinding sim f kept) [] fs"

text \<open>Modelled from the spec: step 3, the buckets; an entry of a bucket is a string (the arrays
  of strings of \<open>aggregateSummarySchema\<close>) with the file and line of the finding.\<close>

definition render :: "finding \<Rightarrow> string" where
  "render f =
     fst f @ (case line (snd f) of None \<Rightarrow> [] | Some l \<Rightarrow> '':'' @ l) @ '': '' @ message (snd f)"

definition bucket :: "(finding \<Rightarrow> bool) \<Rightarrow> finding list \<Rightarrow> string list" where
  "bucket P fs = map render (filter P fs)"

text \<open>Modelled from the spec: steps 4 and 5, the summarizer call, the enforced verdict with its
  note, and the attached lists.\<close>

definition overrideNote :: string where
  "overrideNote = '' [verdict changed from APPROVE to REQUEST_CHANGES: critical issues present]''"

definition aggregate ::
  "(string \<Rightarrow> string \<Rightarrow> bool) \<Rightarrow> (finding list \<Rightarrow> summarizer_output) \<Rightarrow>
   file_review list \<Rightarrow> string list \<Rightarrow> review_output" where
  "aggregate sim summarizeFindings allFileReviews skippedNames =
     (let deduped = dedup sim (flatten allFileReviews);
          critical = bucket (\<lambda>f. severity (snd f) = Critical) deduped;
          s = summarizeFindings deduped;
          override = (s_verdict s = APPROVE \<and> critical \<noteq> [])
      in \<lparr>summary = (if override then s_summary s @ overrideNote else s_summary s),
          qualityScore = s_qualityScore s,
          verdict = (if override then REQUEST_CHANGES else s_verdict s),
          criticalIssues = critical,
          securityConcerns = bucket (\<lambda>f. category (snd f) = Security) deduped,
          performanceNotes = bucket (\<lambda>f. category (snd f) = Performance) deduped,
          suggestions =
            bucket (\<lambda>f. severity (snd f) \<noteq> Critical \<and> category (snd f) \<in> {Bug, Style, Quality}) deduped,
          positiveNotes = bucket (\<lambda>f. category (snd f) = PositiveCat) deduped,
          fileReviews =
            map (\<lambda>r. \<lparr>review_filename = review_filename r,
                       issues = map snd (filter (\<lambda>f. fst f = review_filename r) deduped)\<rparr>)
              allFileReviews,
          skippedFiles = skippedNames\<rparr>)"

section \<open>Example inputs\<close>

text \<open>
  A configuration with the skip pattern of the spec's scenario A (a path that ends in
  \<open>lock.json\<close>) and the per-file patch budget of scenario D, and a few changed files.
\<close>

definition endsWith :: "string \<Rightarrow> string \<Rightarrow> bool" where
  "endsWith p s = (drop (length s - length p) s = p)"

definition exampleConfig :: review_config where
  "exampleConfig =
     \<lparr>SKIP_PATTERNS = [endsWith ''lock.json''],
      MAX_PATCH_CHARS_PER_FILE = 20000,
      MAX_CONTENT_CHARS_PER_FILE = 30000\<rparr>"

definition lockFile :: changed_file where
  "lockFile =
     \<lparr>filename = ''package-lock.json'', status = ''modified'', additions = 10, deletions = 4,
      changes = 14, patch = Some ''@@ -1 +1 @@''\<rparr>"

definition sourceFile :: changed_file where
  "sourceFile =
     \<lparr>filename = ''src/a.ts'', status = ''modified'', additions = 2, deletions = 1,
      changes = 3, patch = Some ''@@ -1,3 +1,4 @@''\<rparr>"

definition removedFile :: changed_file where
  "removedFile =
     \<lparr>filename = ''src/old.ts'', status = ''removed'', additions = 0, deletions = 1,
      changes = 1, patch = None\<rparr>"

text \<open>
  The patch of the spec's scenario D: 50,000 characters, and its first 20,000.
\<close>

definition bigPatch :: string where
  "bigPatch = replicate 50000 CHR ''+''"

definition cutPatch :: string where
  "cutPatch = replicate 20000 CHR ''+''"

definition bigFile :: changed_file where
  "bigFile =
     \<lparr>filename = ''src/big.ts'', status = ''added'', additions = 900, deletions = 0,
      changes = 900, patch = Some bigPatch\<rparr>"

definition cutFile :: changed_file where
  "cutFile =
     \<lparr>filename = ''src/big.ts'', status = ''added'', additions = 900, deletions = 0,
      changes = 900, patch = Some cutPatch\<rparr>"

text \<open>A remote with one file at one commit.\<close>

definition exampleRemote :: remote where
  "exampleRemote =
     [(''o'', ''r'', ''src/a.ts'', ''4f2a9c1'') \<mapsto>
        \<lparr>blob_content = ''export {}'', blob_encoding = ''utf-8'', blob_size = 9\<rparr>]"

text \<open>
  The reviews of one file, with a duplicated finding, and a summarizer that approves
  whatever it is given.
\<close>

definition exampleReviews :: "file_review list" where
  "exampleReviews =
     [\<lparr>review_filename = ''src/a.ts'',
       issues =
         [\<lparr>severity = Warning, category = Security, line = Some ''12'',
           message = ''query built by string concatenation''\<rparr>,
          \<lparr>severity = Critical, category = Security, line = Some ''12'',
           message = ''query built by string concatenation''\<rparr>,
          \<lparr>severity = Suggestion, category = Style, line = None, message = ''prefer const''\<rparr>]\<rparr>]"

definition approvingSummarizer :: "finding list \<Rightarrow> summarizer_output" where
  "approvingSummarizer fs = \<lparr>s_summary = ''Looks good.'', s_qualityScore = 9, s_verdict = APPROVE\<rparr>"

section \<open>Reviewability filter\<close>

lemma reviewableFiles_set:
  "set (reviewableFiles cfg allFiles) =
     {f \<in> set allFiles. \<not> list_ex (\<lambda>p. p (filename f)) (SKIP_PATTERNS cfg)}"
  by (simp add: reviewableFiles_def)

lemma example_patterns:
  "list_ex (\<lambda>p. p (filename lockFile)) (SKIP_PATTERNS exampleConfig)"
  "\<not> list_ex (\<lambda>p. p (filename sourceFile)) (SKIP_PATTERNS exampleConfig)"
  "\<not> list_ex (\<lambda>p. p (filename removedFile)) (SKIP_PATTERNS exampleConfig)"
  by (simp_all add: exampleConfig_def lockFile_def sourceFile_def removedFile_def endsWith_def)

text \<open>
  C1, as the spec states it, fails: a file with status \<open>removed\<close> and one deletion, whose
  path matches no skip pattern, is skipped by the spec's rule (here with threshold 5) and
  is reviewable for the tool.
\<close>

theorem removed_file_is_reviewable:
  "specSkipped exampleConfig 5 removedFile \<and>
   removedFile \<in> set (reviewableFiles exampleConfig [lockFile, removedFile])"
  by (simp add: specSkipped_def reviewableFiles_set example_patterns)
    (simp add: removedFile_def)

text \<open>
  C1 (amended): for every input file list, the filter of getPullRequestFiles leaves a
  file out of the reviewable list if and only if its path matches one of the configured
  skip patterns; every other file of the input is reviewable, whatever its status and
  its deletion count.
\<close>

theorem skipped_iff_pattern_matches:
  "f \<in> set allFiles \<Longrightarrow>
     (f \<notin> set (reviewableFiles cfg allFiles)) =
     (\<exists>p \<in> set (SKIP_PATTERNS cfg). p (filename f))"
  by (simp add: reviewableFiles_set list_ex_iff)

theorem skipped_iff_pattern_matches_witness:
  "lockFile \<notin> set (reviewableFiles exampleConfig [lockFile, removedFile]) \<and>
   removedFile \<in> set (reviewableFiles exampleConfig [lockFile, removedFile])"
  using skipped_iff_pattern_matches [of lockFile "[lockFile, removedFile]" exampleConfig]
    skipped_iff_pattern_matches [of removedFile "[lockFile, removedFile]" exampleConfig]
    example_patterns
  by (auto simp: list_ex_iff)



text \<open>
  C8: the reviewable files stand in the same relative order as in the input: the
  reviewable list is a subsequence of the input list.
\<close>

theorem reviewable_order_preserved:
  "subseq (reviewableFiles cfg allFiles) allFiles"
  by (simp add: reviewableFiles_def)

section \<open>Content budgeter\<close>

lemma truncate_length: "length (truncate t m) \<le> m"
  by (simp add: truncate_def)

lemma truncate_fits: "length t \<le> m \<Longrightarrow> truncate t m = t"
  by (simp add: truncate_def)

lemma truncate_prefix: "prefix (truncate t m) t"
  by (simp add: truncate_def take_is_prefix)



lemma bigPatch_length: "length bigPatch = 50000"
  unfolding bigPatch_def by (rule length_replicate)


lemma bigPatch_cut: "truncate bigPatch 20000 = cutPatch"
proof -
  have "take 20000 bigPatch = replicate (min 20000 50000) CHR ''+''"
    unfolding bigPatch_def by (rule take_replicate)
  moreover have "min (20000::nat) 50000 = 20000"
    by simp
  ultimately have "take 20000 bigPatch = cutPatch"
    by (simp only: cutPatch_def)
  then show ?thesis
    by (simp add: truncate_def bigPatch_length)
qed



text \<open>
  C2: for every text and every budget, the truncated text is no longer than the budget;
  a text within the budget is returned as it is; a text of 50,000 characters with a
  budget of 20,000 gives a text of exactly 20,000 characters.
\<close>

theorem truncate_safe:
  "length (truncate text maxChars) \<le> maxChars \<and>
   (length text \<le> maxChars \<longrightarrow> truncate text maxChars = text) \<and>
   (length text = 50000 \<longrightarrow> length (truncate text 20000) = 20000)"
  by (simp add: truncate_def)

theorem truncate_safe_witness:
  "length (truncate bigPatch 20000) = 20000 \<and>
   truncate ''@@ -1 +1 @@'' 20000 = ''@@ -1 +1 @@''"
  using truncate_safe [of bigPatch 20000] truncate_safe [of "''@@ -1 +1 @@''" 20000]
  by (simp add: bigPatch_length)

section \<open>Pages of reviewable files\<close>

lemma slice_page:
  "0 \<le> s \<Longrightarrow> 0 \<le> n \<Longrightarrow> slice xs s (s + n) = take (nat n) (drop (nat s) xs)"
  by (auto simp: slice_def Let_def min_def)

lemma set_slice: "set (slice xs a b) \<subseteq> set xs"
  unfolding slice_def Let_def
  by (meson set_take_subset set_drop_subset subset_trans)

lemma files_eq:
  "files (getPullRequestFiles cfg allFiles pg) =
     map (budgetPatch cfg)
       (slice (reviewableFiles cfg allFiles) ((pg - 1) * FILES_PER_PAGE)
          ((pg - 1) * FILES_PER_PAGE + FILES_PER_PAGE))"
  by (simp add: getPullRequestFiles_def Let_def)

lemma first_page_small:
  "length (reviewableFiles cfg allFiles) \<le> 30 \<Longrightarrow>
   files (getPullRequestFiles cfg allFiles 1) = map (budgetPatch cfg) (reviewableFiles cfg allFiles)"
  by (simp add: files_eq slice_def FILES_PER_PAGE_def)

lemma budgetPatch_eq:
  "budgetPatch cfg f =
     f\<lparr>patch := map_option (\<lambda>p. truncate p (MAX_PATCH_CHARS_PER_FILE cfg)) (patch f)\<rparr>"
  by (cases "patch f") (auto simp: budgetPatch_def truncate_def)

lemma budgetPatch_fields:
  "filename (budgetPatch cfg f) = filename f"
  "status (budgetPatch cfg f) = status f"
  "additions (budgetPatch cfg f) = additions f"
  "deletions (budgetPatch cfg f) = deletions f"
  "changes (budgetPatch cfg f) = changes f"
  "patch (budgetPatch cfg f) =
     map_option (\<lambda>p. truncate p (MAX_PATCH_CHARS_PER_FILE cfg)) (patch f)"
  by (simp_all add: budgetPatch_eq)

lemma example_budget: "MAX_PATCH_CHARS_PER_FILE exampleConfig = 20000"
  by (simp add: exampleConfig_def)

lemma budget_bigFile: "budgetPatch exampleConfig bigFile = cutFile"
  by (simp add: budgetPatch_eq example_budget) (simp add: bigFile_def cutFile_def bigPatch_cut)


lemma budget_removedFile: "budgetPatch exampleConfig removedFile = removedFile"
  by (simp add: budgetPatch_def removedFile_def)

lemma big_reviewable:
  "\<not> list_ex (\<lambda>p. p (filename bigFile)) (SKIP_PATTERNS exampleConfig)"
  "\<not> list_ex (\<lambda>p. p (filename cutFile)) (SKIP_PATTERNS exampleConfig)"
  by (simp_all add: exampleConfig_def bigFile_def cutFile_def endsWith_def)

lemma example_reviewable:
  "reviewableFiles exampleConfig [lockFile, bigFile, removedFile] = [bigFile, removedFile]"
  by (simp add: reviewableFiles_def example_patterns big_reviewable)

lemma example_files:
  "files (getPullRequestFiles exampleConfig [lockFile, bigFile, removedFile] 1) =
     [cutFile, removedFile]"
  by (simp add: first_page_small example_reviewable budget_bigFile budget_removedFile)

text \<open>
  C9: for every file list and every page number \<open>pg\<close> of at least 1, the files of the
  result are the reviewable files at the indices \<open>(pg - 1) * 30\<close> to \<open>pg * 30 - 1\<close>, each
  with its patch budgeted, so at most 30 files; \<open>hasMore\<close> holds exactly when \<open>pg * 30\<close>
  is less than the number of reviewable files; \<open>reviewableCount\<close> is the number of files
  on the page.
\<close>

theorem page_is_slice_of_reviewable:
  assumes "1 \<le> pg"
  shows "files (getPullRequestFiles cfg allFiles pg) =
       map (budgetPatch cfg)
         (take 30 (drop (nat ((pg - 1) * 30)) (reviewableFiles cfg allFiles))) \<and>
     length (files (getPullRequestFiles cfg allFiles pg)) \<le> 30 \<and>
     hasMore (getPullRequestFiles cfg allFiles pg) =
       (pg * 30 < int (length (reviewableFiles cfg allFiles))) \<and>
     reviewableCount (getPullRequestFiles cfg allFiles pg) =
       length (files (getPullRequestFiles cfg allFiles pg))"
proof -
  have s: "0 \<le> (pg - 1) * FILES_PER_PAGE"
    using assms by (simp add: FILES_PER_PAGE_def)
  have "slice (reviewableFiles cfg allFiles) ((pg - 1) * FILES_PER_PAGE)
          ((pg - 1) * FILES_PER_PAGE + FILES_PER_PAGE) =
        take 30 (drop (nat ((pg - 1) * 30)) (reviewableFiles cfg allFiles))"
    using slice_page [OF s, of FILES_PER_PAGE] by (simp add: FILES_PER_PAGE_def)
  moreover have
    "((pg - 1) * FILES_PER_PAGE + FILES_PER_PAGE < int (length (reviewableFiles cfg allFiles))) =
     (pg * 30 < int (length (reviewableFiles cfg allFiles)))"
    by (simp add: FILES_PER_PAGE_def algebra_simps)
  ultimately show ?thesis
    by (simp add: getPullRequestFiles_def Let_def)
qed

theorem page_is_slice_of_reviewable_witness:
  "reviewableCount (getPullRequestFiles exampleConfig (replicate 31 sourceFile) 1) = 30 \<and>
   hasMore (getPullRequestFiles exampleConfig (replicate 31 sourceFile) 1) \<and>
   length (reviewableFiles exampleConfig (replicate 31 sourceFile)) = 31"
  using page_is_slice_of_reviewable [of 1 exampleConfig "replicate 31 sourceFile"]
    example_patterns(2)
  by (simp add: reviewableFiles_def)

text \<open>
  C10: every file of the result comes from a fetched file with the same file name,
  status, additions, deletions and changes; its patch is absent exactly when the patch
  of the fetched file is absent, and a present patch is the fetched patch cut to the
  per-file patch budget.
\<close>

theorem page_files_frame:
  assumes "g \<in> set (files (getPullRequestFiles cfg allFiles pg))"
  shows "\<exists>f \<in> set allFiles.
     filename g = filename f \<and> status g = status f \<and> additions g = additions f \<and>
     deletions g = deletions f \<and> changes g = changes f \<and>
     (patch g = None) = (patch f = None) \<and>
     (case patch f of
        None \<Rightarrow> patch g = None
      | Some p \<Rightarrow> patch g = Some (truncate p (MAX_PATCH_CHARS_PER_FILE cfg)))"
proof -
  from assms obtain f
    where f: "f \<in> set (slice (reviewableFiles cfg allFiles) ((pg - 1) * FILES_PER_PAGE)
                 ((pg - 1) * FILES_PER_PAGE + FILES_PER_PAGE))"
      and g: "g = budgetPatch cfg f"
    unfolding files_eq by (auto simp only: set_map image_iff)
  from f have "f \<in> set (reviewableFiles cfg allFiles)"
    by (rule set_slice [THEN subsetD])
  then have "f \<in> set allFiles"
    by (simp add: reviewableFiles_set)
  moreover have "(case patch f of
        None \<Rightarrow> patch g = None
      | Some p \<Rightarrow> patch g = Some (truncate p (MAX_PATCH_CHARS_PER_FILE cfg)))"
    by (simp add: g budgetPatch_fields split: option.split)
  ultimately show ?thesis
    by (intro bexI [of _ f]) (simp_all add: g budgetPatch_fields)
qed

theorem page_files_frame_witness:
  "\<exists>f \<in> set [lockFile, bigFile, removedFile].
     filename cutFile = filename f \<and> status cutFile = status f \<and>
     additions cutFile = additions f \<and> deletions cutFile = deletions f \<and>
     changes cutFile = changes f \<and>
     (patch cutFile = None) = (patch f = None) \<and>
     (case patch f of
        None \<Rightarrow> patch cutFile = None
      | Some p \<Rightarrow> patch cutFile = Some (truncate p (MAX_PATCH_CHARS_PER_FILE exampleConfig)))"
  using page_files_frame [of cutFile exampleConfig "[lockFile, bigFile, removedFile]" 1]
  by (simp only: example_files list.set insert_iff simp_thms)

section \<open>Observing a truncation\<close>






section \<open>File content at a ref\<close>

text \<open>
  C7: where the file or the ref does not exist, getFileContent returns a result with
  null content, and no error; where the file exists, it returns its content cut to the
  full-content budget, and whole when it fits.
\<close>

theorem missing_file_gives_null_content:
  "(rem (ow, rp, path, ref) = None \<longrightarrow>
      getFileContent cfg rem ow rp path ref =
        \<lparr>content = None, encoding = ''utf-8'', size' = 0\<rparr>) \<and>
   (\<forall>b. rem (ow, rp, path, ref) = Some b \<longrightarrow>
      (\<exists>c. content (getFileContent cfg rem ow rp path ref) = Some c \<and>
           length c \<le> MAX_CONTENT_CHARS_PER_FILE cfg \<and> prefix c (blob_content b) \<and>
           (length (blob_content b) \<le> MAX_CONTENT_CHARS_PER_FILE cfg \<longrightarrow>
              c = blob_content b)))"
  by (auto simp: getFileContent_def fetchFileContent_def truncate_length truncate_prefix
      truncate_fits)

theorem missing_file_gives_null_content_witness:
  "getFileContent exampleConfig exampleRemote ''o'' ''r'' ''src/gone.ts'' ''4f2a9c1'' =
     \<lparr>content = None, encoding = ''utf-8'', size' = 0\<rparr> \<and>
   content (getFileContent exampleConfig exampleRemote ''o'' ''r'' ''src/a.ts'' ''4f2a9c1'') =
     Some ''export {}''"
  using
    missing_file_gives_null_content
      [of exampleRemote "''o''" "''r''" "''src/gone.ts''" "''4f2a9c1''" exampleConfig]
    missing_file_gives_null_content
      [of exampleRemote "''o''" "''r''" "''src/a.ts''" "''4f2a9c1''" exampleConfig]
  by (auto simp: exampleRemote_def exampleConfig_def)

section \<open>Parsing a pull request URL\<close>

lemma dropPrefix_Some: "(dropPrefix p s = Some r) = (s = p @ r)"
  by (induction p s rule: dropPrefix.induct) auto

lemma split_at_stop:
  assumes "list_all P seg" "\<not> P c"
  shows "takeWhile P (seg @ c # rest) = seg" "dropWhile P (seg @ c # rest) = c # rest"
  using assms by (simp_all add: list_all_iff)

lemma segment_Some:
  "(segment s = Some (seg, rest)) = (seg \<noteq> [] \<and> list_all notSlash seg \<and> s = seg @ ''/'' @ rest)"
proof
  assume a: "segment s = Some (seg, rest)"
  then obtain c where seg: "seg = takeWhile notSlash s" and ne: "seg \<noteq> []"
    and d: "dropWhile notSlash s = c # rest"
    by (auto simp: segment_def Let_def split: if_splits list.splits)
  from d have "\<not> notSlash c" by (simp add: dropWhile_eq_Cons_conv)
  then have c: "c = CHR ''/''" by (simp add: notSlash_def)
  have "s = takeWhile notSlash s @ dropWhile notSlash s" by simp
  then have "s = seg @ ''/'' @ rest" by (simp add: seg d c)
  moreover have "list_all notSlash seg"
    unfolding seg list_all_iff by (auto dest: set_takeWhileD)
  ultimately show "seg \<noteq> [] \<and> list_all notSlash seg \<and> s = seg @ ''/'' @ rest"
    using ne by simp
next
  assume a: "seg \<noteq> [] \<and> list_all notSlash seg \<and> s = seg @ ''/'' @ rest"
  have n: "\<not> notSlash CHR ''/''" by (simp add: notSlash_def)
  from a have s: "s = seg @ CHR ''/'' # rest" by simp
  from a n show "segment s = Some (seg, rest)"
    unfolding s segment_def Let_def by (simp add: split_at_stop)
qed

lemma digitsEnd_Some:
  "(digitsEnd s = Some ds) = (ds \<noteq> [] \<and> list_all isDigit ds \<and> (s = ds \<or> s = ds @ ''/''))"
proof
  assume a: "digitsEnd s = Some ds"
  define rest where "rest = dropWhile isDigit s"
  from a have ds: "ds = takeWhile isDigit s" and ne: "ds \<noteq> []"
    and r: "rest = [] \<or> rest = ''/''"
    unfolding rest_def digitsEnd_def Let_def by (simp_all split: if_splits)
  have "s = ds @ rest" by (simp add: ds rest_def)
  with r have "s = ds \<or> s = ds @ ''/''" by auto
  moreover have "list_all isDigit ds"
    unfolding ds list_all_iff by (auto dest: set_takeWhileD)
  ultimately show "ds \<noteq> [] \<and> list_all isDigit ds \<and> (s = ds \<or> s = ds @ ''/'')"
    using ne by simp
next
  assume a: "ds \<noteq> [] \<and> list_all isDigit ds \<and> (s = ds \<or> s = ds @ ''/'')"
  have n: "\<not> isDigit CHR ''/''" by (simp add: isDigit_def)
  from a consider "s = ds" | "s = ds @ [CHR ''/'']" by auto
  then show "digitsEnd s = Some ds"
  proof cases
    case 1
    from a have t: "takeWhile isDigit ds = ds" and d: "dropWhile isDigit ds = []"
      by (simp_all add: list_all_iff)
    show ?thesis
      unfolding digitsEnd_def Let_def 1 t d using a by simp
  next
    case 2
    with a n show ?thesis by (simp add: digitsEnd_def Let_def split_at_stop)
  qed
qed


lemma afterScheme_Some:
  "(afterScheme s = Some (ow, rp, ds)) =
     (\<exists>sl. s = ''://github.com/'' @ ow @ ''/'' @ rp @ ''/pull/'' @ ds @ sl \<and>
        ow \<noteq> [] \<and> list_all notSlash ow \<and> rp \<noteq> [] \<and> list_all notSlash rp \<and>
        ds \<noteq> [] \<and> list_all isDigit ds \<and> (sl = [] \<or> sl = ''/''))"
proof
  assume "afterScheme s = Some (ow, rp, ds)"
  then obtain r1 r2 r3 r4
    where f1: "dropPrefix ''://github.com/'' s = Some r1" and f2: "segment r1 = Some (ow, r2)"
      and f3: "segment r2 = Some (rp, r3)" and f4: "dropPrefix ''pull/'' r3 = Some r4"
      and f5: "digitsEnd r4 = Some ds"
    unfolding afterScheme_def by (auto simp: bind_eq_Some_conv)
  have s1: "s = ''://github.com/'' @ r1"
    using f1 unfolding dropPrefix_Some .
  have s2: "ow \<noteq> [] \<and> list_all notSlash ow \<and> r1 = ow @ ''/'' @ r2"
    using f2 unfolding segment_Some .
  have s3: "rp \<noteq> [] \<and> list_all notSlash rp \<and> r2 = rp @ ''/'' @ r3"
    using f3 unfolding segment_Some .
  have s4: "r3 = ''pull/'' @ r4"
    using f4 unfolding dropPrefix_Some .
  have s5: "ds \<noteq> [] \<and> list_all isDigit ds \<and> (r4 = ds \<or> r4 = ds @ ''/'')"
    using f5 unfolding digitsEnd_Some .
  from s5 obtain sl where sl: "r4 = ds @ sl" "sl = [] \<or> sl = ''/''"
    by auto
  have "s = ''://github.com/'' @ ow @ ''/'' @ rp @ ''/pull/'' @ ds @ sl"
    using s1 s2 s3 s4 sl(1) by simp
  with s2 s3 s5 sl(2)
  show "\<exists>sl. s = ''://github.com/'' @ ow @ ''/'' @ rp @ ''/pull/'' @ ds @ sl \<and>
        ow \<noteq> [] \<and> list_all notSlash ow \<and> rp \<noteq> [] \<and> list_all notSlash rp \<and>
        ds \<noteq> [] \<and> list_all isDigit ds \<and> (sl = [] \<or> sl = ''/'')"
    by (intro exI [of _ sl]) blast
next
  assume "\<exists>sl. s = ''://github.com/'' @ ow @ ''/'' @ rp @ ''/pull/'' @ ds @ sl \<and>
        ow \<noteq> [] \<and> list_all notSlash ow \<and> rp \<noteq> [] \<and> list_all notSlash rp \<and>
        ds \<noteq> [] \<and> list_all isDigit ds \<and> (sl = [] \<or> sl = ''/'')"
  then obtain sl where s: "s = ''://github.com/'' @ ow @ ''/'' @ rp @ ''/pull/'' @ ds @ sl"
    and c: "ow \<noteq> []" "list_all notSlash ow" "rp \<noteq> []" "list_all notSlash rp"
      "ds \<noteq> []" "list_all isDigit ds" "sl = [] \<or> sl = ''/''"
    by blast
  define r4 where "r4 = ds @ sl"
  define r3 where "r3 = ''pull/'' @ r4"
  define r2 where "r2 = rp @ ''/'' @ r3"
  define r1 where "r1 = ow @ ''/'' @ r2"
  have "s = ''://github.com/'' @ r1"
    by (simp add: s r1_def r2_def r3_def r4_def)
  then have 1: "dropPrefix ''://github.com/'' s = Some r1"
    by (simp only: dropPrefix_Some)
  have 2: "segment r1 = Some (ow, r2)"
    using c by (simp only: segment_Some r1_def) simp
  have 3: "segment r2 = Some (rp, r3)"
    using c by (simp only: segment_Some r2_def) simp
  have 4: "dropPrefix ''pull/'' r3 = Some r4"
    by (simp only: dropPrefix_Some r3_def)
  have 5: "digitsEnd r4 = Some ds"
    using c by (simp only: digitsEnd_Some r4_def) auto
  show "afterScheme s = Some (ow, rp, ds)"
    unfolding afterScheme_def by (simp add: 1 2 3 4 5)
qed

lemma matchPRUrl_Some:
  "(matchPRUrl url = Some (ow, rp, ds)) = isPRUrl [''https'', ''http''] url ow rp ds"
proof
  assume m: "matchPRUrl url = Some (ow, rp, ds)"
  then obtain r where r: "url = ''http'' @ r"
    and alt: "(\<exists>r'. r = ''s'' @ r' \<and> afterScheme r' = Some (ow, rp, ds)) \<or>
              afterScheme r = Some (ow, rp, ds)"
    unfolding matchPRUrl_def
    by (auto simp: dropPrefix_Some bind_eq_Some_conv split: option.splits)
  from alt show "isPRUrl [''https'', ''http''] url ow rp ds"
  proof
    assume "\<exists>r'. r = ''s'' @ r' \<and> afterScheme r' = Some (ow, rp, ds)"
    then obtain r' where r': "r = ''s'' @ r'" and "afterScheme r' = Some (ow, rp, ds)"
      by blast
    then obtain sl
      where "r' = ''://github.com/'' @ ow @ ''/'' @ rp @ ''/pull/'' @ ds @ sl"
        and c: "ow \<noteq> [] \<and> list_all notSlash ow \<and> rp \<noteq> [] \<and> list_all notSlash rp \<and>
          ds \<noteq> [] \<and> list_all isDigit ds \<and> (sl = [] \<or> sl = ''/'')"
      unfolding afterScheme_Some by blast
    then have "url = ''https'' @ ''://github.com/'' @ ow @ ''/'' @ rp @ ''/pull/'' @ ds @ sl"
      by (simp add: r r')
    with c show ?thesis
      unfolding isPRUrl_def by (intro exI [of _ "''https''"] exI [of _ sl]) simp
  next
    assume "afterScheme r = Some (ow, rp, ds)"
    then obtain sl
      where "r = ''://github.com/'' @ ow @ ''/'' @ rp @ ''/pull/'' @ ds @ sl"
        and c: "ow \<noteq> [] \<and> list_all notSlash ow \<and> rp \<noteq> [] \<and> list_all notSlash rp \<and>
          ds \<noteq> [] \<and> list_all isDigit ds \<and> (sl = [] \<or> sl = ''/'')"
      unfolding afterScheme_Some by blast
    then have "url = ''http'' @ ''://github.com/'' @ ow @ ''/'' @ rp @ ''/pull/'' @ ds @ sl"
      by (simp add: r)
    with c show ?thesis
      unfolding isPRUrl_def by (intro exI [of _ "''http''"] exI [of _ sl]) simp
  qed
next
  assume "isPRUrl [''https'', ''http''] url ow rp ds"
  then obtain scheme sl
    where url: "url = scheme @ ''://github.com/'' @ ow @ ''/'' @ rp @ ''/pull/'' @ ds @ sl"
      and scheme: "scheme = ''https'' \<or> scheme = ''http''"
      and c: "ow \<noteq> [] \<and> list_all notSlash ow \<and> rp \<noteq> [] \<and> list_all notSlash rp \<and>
        ds \<noteq> [] \<and> list_all isDigit ds \<and> (sl = [] \<or> sl = ''/'')"
    unfolding isPRUrl_def by auto
  define rest where "rest = ''://github.com/'' @ ow @ ''/'' @ rp @ ''/pull/'' @ ds @ sl"
  have a: "afterScheme rest = Some (ow, rp, ds)"
    unfolding afterScheme_Some rest_def using c by blast
  from scheme show "matchPRUrl url = Some (ow, rp, ds)"
  proof
    assume "scheme = ''https''"
    then have "url = ''http'' @ ''s'' @ rest"
      by (simp add: url rest_def)
    then have "dropPrefix ''http'' url = Some (''s'' @ rest)"
      by (simp only: dropPrefix_Some)
    moreover have "dropPrefix ''s'' (''s'' @ rest) = Some rest"
      by (simp only: dropPrefix_Some)
    ultimately show ?thesis
      by (simp add: matchPRUrl_def a)
  next
    assume "scheme = ''http''"
    then have "url = ''http'' @ rest"
      by (simp add: url rest_def)
    then have "dropPrefix ''http'' url = Some rest"
      by (simp only: dropPrefix_Some)
    moreover have "dropPrefix ''s'' rest = None"
      by (simp add: rest_def)
    ultimately show ?thesis
      by (simp add: matchPRUrl_def a)
  qed
qed

text \<open>
  C6, as the spec states it, fails: a URL with the scheme \<open>http\<close> is not of the form
  \<open>https://github.com/owner/repo/pull/<digits>\<close>, and the tool parses it.
\<close>

theorem http_url_is_parsed:
  "take 8 ''http://github.com/o/r/pull/1'' \<noteq> ''https://'' \<and>
   parseGitHubPRUrl ''http://github.com/o/r/pull/1'' =
     Inr \<lparr>owner = ''o'', repo = ''r'', pullNumber = SafeInteger 1\<rparr>"
  by (simp add: parseGitHubPRUrl_def matchPRUrl_def afterScheme_def segment_def digitsEnd_def
      notSlash_def isDigit_def parseInt10_def decimal_def digitValue_def)

text \<open>
  C6 (amended): a URL that is \<open>http\<close> or \<open>https\<close>, \<open>://github.com/\<close>, a non-empty owner
  and a non-empty repository name without a slash, \<open>/pull/\<close>, one or more decimal
  digits and at most one trailing slash is parsed into that owner, that repository name
  and the number that the digits write (held exactly up to \<open>2 ^ 53\<close>); every other
  string fails with the invalid-URL error. The tool is a function of the string alone, so
  it fails before any network call.
\<close>

theorem parse_url_iff_well_formed:
  "(isPRUrl [''https'', ''http''] url ow rp ds \<longrightarrow>
      parseGitHubPRUrl url =
        Inr \<lparr>owner = ow, repo = rp,
             pullNumber = (if decimal ds \<le> 2 ^ 53 then SafeInteger (decimal ds) else BeyondSafe)\<rparr>) \<and>
   ((\<forall>ow rp ds. \<not> isPRUrl [''https'', ''http''] url ow rp ds) \<longrightarrow>
      parseGitHubPRUrl url = Inl (InvalidUrl url))"
proof (intro conjI impI)
  assume "isPRUrl [''https'', ''http''] url ow rp ds"
  then have "matchPRUrl url = Some (ow, rp, ds)"
    by (simp only: matchPRUrl_Some)
  then show "parseGitHubPRUrl url =
        Inr \<lparr>owner = ow, repo = rp,
             pullNumber = (if decimal ds \<le> 2 ^ 53 then SafeInteger (decimal ds) else BeyondSafe)\<rparr>"
    by (simp add: parseGitHubPRUrl_def parseInt10_def Let_def)
next
  assume none: "\<forall>ow rp ds. \<not> isPRUrl [''https'', ''http''] url ow rp ds"
  have "matchPRUrl url = None"
  proof (cases "matchPRUrl url")
    case None
    then show ?thesis .
  next
    case (Some m)
    obtain ow rp ds where "m = (ow, rp, ds)"
      by (cases m) auto
    with Some have "isPRUrl [''https'', ''http''] url ow rp ds"
      by (simp only: matchPRUrl_Some)
    with none show ?thesis
      by blast
  qed
  then show "parseGitHubPRUrl url = Inl (InvalidUrl url)"
    by (simp add: parseGitHubPRUrl_def)
qed

theorem parse_url_iff_well_formed_witness:
  "parseGitHubPRUrl ''https://github.com/mastra-ai/template/pull/123/'' =
     Inr \<lparr>owner = ''mastra-ai'', repo = ''template'', pullNumber = SafeInteger 123\<rparr> \<and>
   parseGitHubPRUrl ''https://github.com/mastra-ai/template/pull/12a'' =
     Inl (InvalidUrl ''https://github.com/mastra-ai/template/pull/12a'')"
proof -
  have good: "isPRUrl [''https'', ''http''] ''https://github.com/mastra-ai/template/pull/123/''
      ''mastra-ai'' ''template'' ''123''"
    unfolding isPRUrl_def
    by (intro exI [of _ "''https''"] exI [of _ "''/''"]) (simp add: notSlash_def isDigit_def)
  have "matchPRUrl ''https://github.com/mastra-ai/template/pull/12a'' = None"
    by (simp add: matchPRUrl_def afterScheme_def segment_def digitsEnd_def notSlash_def
        isDigit_def)
  then have bad: "\<forall>ow rp ds. \<not> isPRUrl [''https'', ''http'']
      ''https://github.com/mastra-ai/template/pull/12a'' ow rp ds"
    by (simp add: matchPRUrl_Some [symmetric])
  have d: "decimal ''123'' = 123"
    by (simp add: decimal_def digitValue_def)
  from good bad d
    parse_url_iff_well_formed [of "''https://github.com/mastra-ai/template/pull/123/''" "''mastra-ai''" "''template''" "''123''"]
    parse_url_iff_well_formed [of "''https://github.com/mastra-ai/template/pull/12a''"]
  show ?thesis
    by simp
qed

section \<open>Aggregation invariant\<close>

lemma rank_Critical: "(3 \<le> rank s) = (s = Critical)"
  by (cases s) simp_all

lemma rank_le: "rank s \<le> 3"
  by (cases s) simp_all

lemma mergeFinding_keeps_critical:
  "\<exists>g \<in> set (f # kept). severity (snd g) = Critical \<Longrightarrow>
   \<exists>g \<in> set (mergeFinding sim f kept). severity (snd g) = Critical"
proof (induction kept)
  case Nil
  then show ?case by simp
next
  case (Cons g gs)
  show ?case
  proof (cases "duplicate sim f g")
    case False
    with Cons show ?thesis by auto
  next
    case True
    show ?thesis
    proof (cases "rank (severity (snd g)) < rank (severity (snd f))")
      case lower: True
      then have "severity (snd g) \<noteq> Critical"
        using rank_le [of "severity (snd f)"] by auto
      with Cons.prems True lower show ?thesis by auto
    next
      case notlower: False
      have "severity (snd f) = Critical \<Longrightarrow> severity (snd g) = Critical"
        using notlower rank_Critical [of "severity (snd g)"] by simp
      with Cons.prems True notlower show ?thesis by auto
    qed
  qed
qed

lemma foldl_mergeFinding_keeps_critical:
  "\<exists>g \<in> set kept \<union> set fs. severity (snd g) = Critical \<Longrightarrow>
   \<exists>g \<in> set (foldl (\<lambda>kept f. mergeFinding sim f kept) kept fs). severity (snd g) = Critical"
proof (induction fs arbitrary: kept)
  case Nil
  then show ?case by simp
next
  case (Cons f fs)
  show ?case
  proof (cases "\<exists>g \<in> set (f # kept). severity (snd g) = Critical")
    case True
    then have "\<exists>g \<in> set (mergeFinding sim f kept). severity (snd g) = Critical"
      by (rule mergeFinding_keeps_critical)
    then have "\<exists>g \<in> set (mergeFinding sim f kept) \<union> set fs. severity (snd g) = Critical"
      by blast
    then show ?thesis
      using Cons.IH [of "mergeFinding sim f kept"] by simp
  next
    case False
    with Cons.prems have "\<exists>g \<in> set fs. severity (snd g) = Critical"
      by auto
    then have "\<exists>g \<in> set (mergeFinding sim f kept) \<union> set fs. severity (snd g) = Critical"
      by blast
    then show ?thesis
      using Cons.IH [of "mergeFinding sim f kept"] by simp
  qed
qed

lemma dedup_keeps_critical:
  "\<exists>g \<in> set fs. severity (snd g) = Critical \<Longrightarrow>
   \<exists>g \<in> set (dedup sim fs). severity (snd g) = Critical"
  unfolding dedup_def using foldl_mergeFinding_keeps_critical [of "[]" fs sim] by simp

lemma bucket_nonempty: "(bucket P fs \<noteq> []) = (\<exists>f \<in> set fs. P f)"
  by (simp add: bucket_def filter_empty_conv)

text \<open>
  C5: if any finding has severity \<open>critical\<close>, then \<open>criticalIssues\<close> is not empty and
  the verdict of the aggregated review is not \<open>APPROVE\<close>; an \<open>APPROVE\<close> of the summarizer
  becomes \<open>REQUEST_CHANGES\<close>, and the override note is appended to the summary, which
  so differs from the summarizer's.
\<close>

theorem critical_finding_forbids_approve:
  assumes "\<exists>f \<in> set (flatten allFileReviews). severity (snd f) = Critical"
  shows "criticalIssues (aggregate sim summarizeFindings allFileReviews skippedNames) \<noteq> [] \<and>
     verdict (aggregate sim summarizeFindings allFileReviews skippedNames) \<noteq> APPROVE \<and>
     (s_verdict (summarizeFindings (dedup sim (flatten allFileReviews))) = APPROVE \<longrightarrow>
        verdict (aggregate sim summarizeFindings allFileReviews skippedNames) = REQUEST_CHANGES \<and>
        summary (aggregate sim summarizeFindings allFileReviews skippedNames) =
          s_summary (summarizeFindings (dedup sim (flatten allFileReviews))) @ overrideNote \<and>
        summary (aggregate sim summarizeFindings allFileReviews skippedNames) \<noteq>
          s_summary (summarizeFindings (dedup sim (flatten allFileReviews))))"
proof -
  from assms have "\<exists>g \<in> set (dedup sim (flatten allFileReviews)). severity (snd g) = Critical"
    by (rule dedup_keeps_critical)
  then have c: "bucket (\<lambda>f. severity (snd f) = Critical) (dedup sim (flatten allFileReviews)) \<noteq> []"
    by (simp only: bucket_nonempty)
  have n: "overrideNote \<noteq> []"
    by (simp add: overrideNote_def)
  from c n show ?thesis
    by (simp add: aggregate_def Let_def)
qed

theorem critical_finding_forbids_approve_witness:
  "verdict (aggregate (=) approvingSummarizer exampleReviews [''package-lock.json'']) = REQUEST_CHANGES \<and>
   summary (aggregate (=) approvingSummarizer exampleReviews [''package-lock.json'']) = ''Looks good.'' @ overrideNote"
proof -
  have "\<exists>f \<in> set (flatten exampleReviews). severity (snd f) = Critical"
    by (simp add: flatten_def exampleReviews_def)
  from critical_finding_forbids_approve [OF this, of "(=)" approvingSummarizer "[''package-lock.json'']"]
  show ?thesis
    by (simp add: approvingSummarizer_def)
qed

end
